theory Spec2Isabelle
  imports Main
begin

section \<open>Data model\<close>

subsection \<open>api/generated/models/FullUser.ts, api/error.ts, utils/result.ts\<close>

record FullUser =
  displayName :: string
  uuid :: string

text \<open>The members of \<^verbatim>\<open>enum StatusCode\<close>.\<close>

definition ArbitraryJSError :: int where
  "ArbitraryJSError = - 2"

definition JsonDecodeError :: int where
  "JsonDecodeError = - 1"

definition Unauthenticated :: int where
  "Unauthenticated = 1000"

record ApiError =
  status_code :: int
  message :: string

datatype ('t, 'e) Result = Ok 't | Err 'e

fun match :: "('t, 'e) Result \<Rightarrow> ('t \<Rightarrow> 'r) \<Rightarrow> ('e \<Rightarrow> 'r) \<Rightarrow> 'r" where
  "match (Ok ok) ifOk ifErr = ifOk ok"
| "match (Err err) ifOk ifErr = ifErr err"

subsection \<open>Values at run time\<close>

text \<open>
  What \<^verbatim>\<open>response.json()\<close> can yield: any JSON value. The source gives the decoded body of
  an error response the type \<^verbatim>\<open>ApiError\<close> without looking at it, so the error of a
  \<^verbatim>\<open>Result\<close> is such a value at run time. A number is given by its integer value. A
  JavaScript value is a JSON value or \<^verbatim>\<open>undefined\<close>, which is \<open>None\<close>.
\<close>

datatype json =
    JNull
  | JBool bool
  | JNumber int
  | JString string
  | JArray "json list"
  | JObject "(string \<times> json) list"

type_synonym js = "json option"

abbreviation str :: "string \<Rightarrow> js" where
  "str s \<equiv> Some (JString s)"

text \<open>An object that has the type \<^verbatim>\<open>ApiError\<close> indeed.\<close>

definition ApiError_object :: "ApiError \<Rightarrow> json" where
  "ApiError_object e =
     JObject [(''status_code'', JNumber (status_code e)), (''message'', JString (message e))]"

text \<open>
  What a JavaScript call can throw or a promise can reject with. \<^verbatim>\<open>response.json()\<close> rejects
  when the body is not JSON, which is the case \<open>json = None\<close> of a response, and otherwise
  resolves with the decoded body.
\<close>

datatype Response = Response (json: "json option")

datatype exn = ResponseError Response | RequiredError | TypeError | SyntaxError | Other_exception

datatype 't promise = Fulfilled 't | Rejected exn

text \<open>
  Reading a property, as in \<^verbatim>\<open>error.status_code\<close>: on \<^verbatim>\<open>null\<close> it throws a \<^verbatim>\<open>TypeError\<close>; on
  an object it gives the value of the key (the last one, where the JSON text repeats a key) or
  \<^verbatim>\<open>undefined\<close>; on a boolean, a number, a string or an array it gives \<^verbatim>\<open>undefined\<close> for
  the keys read in this program, \<^verbatim>\<open>status_code\<close> and \<^verbatim>\<open>message\<close>.
\<close>

fun property :: "json \<Rightarrow> string \<Rightarrow> exn + js" where
  "property JNull key = Inl TypeError"
| "property (JObject members) key = Inr (map_of (rev members) key)"
| "property _ key = Inr None"

subsection \<open>context/user.tsx: the provider and everything it touches\<close>

text \<open>\<^verbatim>\<open>UserProviderState.user\<close>: \<^verbatim>\<open>FullUser | "unauthenticated" | "loading"\<close>.\<close>

datatype user_state = loading | unauthenticated | User FullUser

text \<open>
  One \<^verbatim>\<open>UserProvider\<close> instance: its React state and the \<^verbatim>\<open>fetching\<close> field.
  A freshly constructed instance is \<open>new_UserProvider\<close>.
\<close>

record UserProvider =
  user :: user_state
  fetching :: bool

definition new_UserProvider :: UserProvider where
  "new_UserProvider = \<lparr>user = loading, fetching = False\<rparr>"

text \<open>
  The notification sink (react-toastify) is a collaborator outside the repository. Only what
  the provider relies on is modelled: every call shows a toast and returns a fresh id, a toast
  with \<^verbatim>\<open>autoClose: false\<close> stays on screen until it is dismissed, and \<^verbatim>\<open>dismiss\<close> removes
  the toast with the given id.
\<close>

datatype toast_type = warning | error | success

datatype autoClose = autoClose_default | autoClose_false | autoClose_ms nat

record ToastOptions =
  closeButton :: bool
  closeOnClick :: bool
  autoClose :: autoClose
  isLoading :: bool

definition default_options :: ToastOptions where
  "default_options =
     \<lparr>closeButton = True, closeOnClick = True, autoClose = autoClose_default, isLoading = False\<rparr>"

text \<open>
  Modelled from the spec: the module \<^verbatim>\<open>api/ws\<close> is not part of the sources; its connection
  states are the spec's \<^verbatim>\<open>Connecting | Connected | Disconnected\<close>. The provider only
  distinguishes \<^verbatim>\<open>"connected"\<close> from everything else.
\<close>

datatype ConnectionState = connecting | connected | disconnected

text \<open>
  Everything the provider does to the outside, in the order it does it. An exception that
  leaves the callback of a promise is reported by the browser as an unhandled rejection.
\<close>

datatype effect =
    getMe nat
  | WS_connect string
  | WS_addEventListener
  | toast toast_type js ToastOptions nat
  | toast_dismiss nat
  | CONSOLE_error string
  | CONSOLE_warn string
  | unhandledrejection exn

text \<open>
  The page: the provider instances (addressed by a number standing for object identity), the
  module variable \<^verbatim>\<open>USER_PROVIDER\<close>, the requests whose \<^verbatim>\<open>then\<close> callback has not run yet,
  the \<^verbatim>\<open>runningToast\<close> variable of every registered websocket listener closure, the toast
  container, \<^verbatim>\<open>window.location.origin\<close>, and the log of effects.
\<close>

record world =
  providers :: "nat \<Rightarrow> UserProvider"
  USER_PROVIDER :: "nat option"
  inflight :: "nat \<Rightarrow> nat"
  listeners :: "nat option list"
  next_toast :: nat
  persistent :: "nat list"
  origin :: string
  effects :: "effect list"

definition init :: "string \<Rightarrow> world" where
  "init org =
     \<lparr>providers = (\<lambda>_. new_UserProvider), USER_PROVIDER = None, inflight = (\<lambda>_. 0),
      listeners = [], next_toast = 0, persistent = [], origin = org, effects = []\<rparr>"

definition emit :: "effect \<Rightarrow> world \<Rightarrow> world" where
  "emit x w = w\<lparr>effects := effects w @ [x]\<rparr>"

text \<open>
  \<^verbatim>\<open>this.setState({ user })\<close>. React applies the update only while the instance is mounted;
  the page does not record which instances are mounted, so the field of an instance that is
  not mounted, which nothing renders, is written as well.
\<close>

definition setState :: "nat \<Rightarrow> user_state \<Rightarrow> world \<Rightarrow> world" where
  "setState this u w = w\<lparr>providers := (providers w)(this := (providers w this)\<lparr>user := u\<rparr>)\<rparr>"

definition set_fetching :: "nat \<Rightarrow> bool \<Rightarrow> world \<Rightarrow> world" where
  "set_fetching this b w =
     w\<lparr>providers := (providers w)(this := (providers w this)\<lparr>fetching := b\<rparr>)\<rparr>"

definition show_toast :: "toast_type \<Rightarrow> js \<Rightarrow> ToastOptions \<Rightarrow> world \<Rightarrow> nat \<times> world" where
  "show_toast ty content opts w =
     (let ident = next_toast w in
      (ident,
       emit (toast ty content opts ident)
         (w\<lparr>next_toast := Suc ident,
            persistent := (if autoClose opts = autoClose_false
                           then persistent w @ [ident] else persistent w)\<rparr>)))"

definition dismiss :: "nat \<Rightarrow> world \<Rightarrow> world" where
  "dismiss ident w = emit (toast_dismiss ident) (w\<lparr>persistent := removeAll ident (persistent w)\<rparr>)"

section \<open>String.prototype.replace with a string pattern\<close>

text \<open>Only the first occurrence of the pattern is replaced; without one the string is unchanged.\<close>

fun replace :: "string \<Rightarrow> string \<Rightarrow> string \<Rightarrow> string" where
  "replace [] pat rep = (if pat = [] then rep else [])"
| "replace (c # cs) pat rep =
     (if take (length pat) (c # cs) = pat then rep @ drop (length pat) (c # cs)
      else c # replace cs pat rep)"

definition ws_url :: "string \<Rightarrow> string" where
  "ws_url org = replace org ''http'' ''ws'' @ ''/api/v1/ws''"

section \<open>UserProvider\<close>

definition request_getMe :: "nat \<Rightarrow> world \<Rightarrow> world" where
  "request_getMe this w = emit (getMe this) (w\<lparr>inflight := (inflight w)(this := Suc (inflight w this))\<rparr>)"

text \<open>\<^verbatim>\<open>fetchUser\<close> up to the point where the request has been issued.\<close>

definition fetchUser :: "nat \<Rightarrow> world \<Rightarrow> world" where
  "fetchUser this w =
     (if fetching (providers w this) then w
      else request_getMe this (setState this loading (set_fetching this True w)))"

text \<open>
  The callback given to \<^verbatim>\<open>then\<close>, run when the request has completed: first
  \<^verbatim>\<open>result.match\<close>, then the guard is cleared. When \<^verbatim>\<open>result.match\<close> throws, which it does
  exactly where it reads a property of \<^verbatim>\<open>null\<close>, nothing has been written yet, the statement
  that clears the guard is not reached, and the exception leaves the callback.
\<close>

definition getMe_then :: "nat \<Rightarrow> (FullUser, json) Result \<Rightarrow> world \<Rightarrow> world" where
  "getMe_then this result w =
     (case match result
             (\<lambda>usr. Inr (setState this (User usr) (emit (WS_connect (ws_url (origin w))) w)))
             (\<lambda>err. case property err ''status_code'' of
                      Inl e \<Rightarrow> Inl e
                    | Inr code \<Rightarrow>
                        if code = Some (JNumber Unauthenticated)
                        then Inr (setState this unauthenticated w)
                        else (case property err ''message'' of
                                Inl e \<Rightarrow> Inl e
                              | Inr msg \<Rightarrow> Inr (snd (show_toast error msg default_options w))))
      of
        Inr w' \<Rightarrow> set_fetching this False w'
      | Inl e \<Rightarrow> emit (unhandledrejection e) w)"

definition errorToast :: "js \<times> ToastOptions" where
  "errorToast =
     (str ''Connecting websocket...'',
      \<lparr>closeButton = False, closeOnClick = False, autoClose = autoClose_false, isLoading = True\<rparr>)"

definition successToast :: "js \<times> ToastOptions" where
  "successToast =
     (str ''Websocket has connected'', default_options\<lparr>autoClose := autoClose_ms 1000\<rparr>)"

text \<open>
  The listener given to \<^verbatim>\<open>WS.addEventListener("state", ...)\<close>. Its closure variable
  \<^verbatim>\<open>runningToast\<close> is passed in and returned.
\<close>

definition state_listener :: "ConnectionState \<Rightarrow> nat option \<Rightarrow> world \<Rightarrow> nat option \<times> world" where
  "state_listener newState runningToast w =
     (case newState of
        connected \<Rightarrow>
          (let (runningToast', w') =
                 (case runningToast of
                    Some t \<Rightarrow> (None, dismiss t w)
                  | None \<Rightarrow> (runningToast, w))
           in (runningToast', snd (show_toast success (fst successToast) (snd successToast) w')))
      | _ \<Rightarrow>
          (if runningToast = None
           then (let (t, w') = show_toast error (fst errorToast) (snd errorToast) w in (Some t, w'))
           else (runningToast, w)))"

definition componentDidMount :: "nat \<Rightarrow> world \<Rightarrow> world" where
  "componentDidMount this w =
     (let w1 = fetchUser this w;
          w2 = (if USER_PROVIDER w1 = None then w1\<lparr>USER_PROVIDER := Some this\<rparr>
                else if USER_PROVIDER w1 = Some this
                then emit (CONSOLE_error ''UserProvider did mount twice'') w1
                else emit (CONSOLE_error ''Two instances of UserProvider are used'') w1);
          (runningToast, w3) = show_toast warning (fst errorToast) (snd errorToast) w2
      in emit WS_addEventListener (w3\<lparr>listeners := listeners w3 @ [Some runningToast]\<rparr>))"

definition componentWillUnmount :: "nat \<Rightarrow> world \<Rightarrow> world" where
  "componentWillUnmount this w =
     (if USER_PROVIDER w = Some this then w\<lparr>USER_PROVIDER := None\<rparr>
      else if USER_PROVIDER w = None
      then emit (CONSOLE_error ''UserProvider instance did unmount twice'') w
      else emit (CONSOLE_error ''Two instances of UserProvider are used'') w)"

datatype view = Loading_div | Login | USER_CONTEXT_Provider FullUser

definition render :: "UserProvider \<Rightarrow> view" where
  "render this =
     (case user this of
        loading \<Rightarrow> Loading_div
      | unauthenticated \<Rightarrow> Login
      | User u \<Rightarrow> USER_CONTEXT_Provider u)"


text \<open>A method call on \<^verbatim>\<open>null\<close> throws a \<^verbatim>\<open>TypeError\<close>.\<close>

definition setState_on :: "nat option \<Rightarrow> user_state \<Rightarrow> world \<Rightarrow> exn + world" where
  "setState_on ref u w = (case ref of None \<Rightarrow> Inl TypeError | Some this \<Rightarrow> Inr (setState this u w))"

definition inspectError :: "ApiError \<Rightarrow> world \<Rightarrow> exn + world" where
  "inspectError err w =
     (if status_code err = Unauthenticated
      then (if USER_PROVIDER w \<noteq> None then setState_on (USER_PROVIDER w) unauthenticated w
            else Inr (emit (CONSOLE_warn ''inspectError has been called without a UserProvider'') w))
      else Inr w)"

section \<open>api/error.ts and api/api.ts: parseError and handleError\<close>

text \<open>
  Both are \<^verbatim>\<open>async\<close> functions: the result is the promise they return, once settled, together
  with the console log.
\<close>

definition parseError :: "Response \<Rightarrow> effect list \<Rightarrow> json promise \<times> effect list" where
  "parseError response log =
     (case json response of
        Some body \<Rightarrow> (Fulfilled body, log)
      | None \<Rightarrow>
          (Fulfilled (ApiError_object
             \<lparr>status_code = JsonDecodeError,
              message = ''The server's response was invalid json''\<rparr>),
           log @ [CONSOLE_error ''Got invalid json'']))"

definition handleError ::
    "'t promise \<Rightarrow> effect list \<Rightarrow> ('t, json) Result promise \<times> effect list" where
  "handleError promise log =
     (case promise of
        Fulfilled v \<Rightarrow> (Fulfilled (Ok v), log)
      | Rejected e \<Rightarrow>
          (case e of
             ResponseError response \<Rightarrow>
               (case parseError response log of
                  (Fulfilled err, log') \<Rightarrow> (Fulfilled (Err err), log')
                | (Rejected e', log') \<Rightarrow> (Rejected e', log'))
           | RequiredError \<Rightarrow>
               (Fulfilled (Err (ApiError_object
                  \<lparr>status_code = JsonDecodeError,
                   message = ''The server's response didn't match the spec''\<rparr>)),
                log @ [CONSOLE_error ''RequiredError''])
           | _ \<Rightarrow>
               (Fulfilled (Err (ApiError_object
                  \<lparr>status_code = ArbitraryJSError, message = ''Unknown error occurred''\<rparr>)),
                log @ [CONSOLE_error ''Unknown error occurred:''])))"

section \<open>The page as a transition system\<close>

text \<open>
  JavaScript runs one callback at a time and to its end, so the page moves in steps: a
  lifecycle method of an instance, a call of \<^verbatim>\<open>fetchUser\<close> (as \<^verbatim>\<open>reset\<close> of the context or
  \<^verbatim>\<open>onLogin\<close> of the login view), the \<^verbatim>\<open>then\<close> callback of a request that has completed with
  some result, a call of \<^verbatim>\<open>inspectError\<close>, or a state event of the websocket, which calls
  every registered listener in the order of registration.
\<close>

datatype event =
    Mount nat
  | Unmount nat
  | Call_fetchUser nat
  | Resolve_getMe nat "(FullUser, json) Result"
  | Call_inspectError ApiError
  | WS_state ConnectionState

text \<open>
  Modelled from the spec: the module \<^verbatim>\<open>api/ws\<close> is not part of the sources. It emits a
  \<^verbatim>\<open>state\<close> event with every transition of the connection, and the event calls the listeners
  registered with \<^verbatim>\<open>addEventListener\<close>, each with its own closure.
\<close>

fun dispatch :: "ConnectionState \<Rightarrow> nat option list \<Rightarrow> world \<Rightarrow> nat option list \<times> world" where
  "dispatch newState [] w = ([], w)"
| "dispatch newState (rt # rts) w =
     (let (rt', w') = state_listener newState rt w;
          (rts', w'') = dispatch newState rts w'
      in (rt' # rts', w''))"

definition WS_emit_state :: "ConnectionState \<Rightarrow> world \<Rightarrow> world" where
  "WS_emit_state newState w =
     (let (rts, w') = dispatch newState (listeners w) w in w'\<lparr>listeners := rts\<rparr>)"

text \<open>
  A completion is only delivered for a request that is outstanding. The one call in
  \<^verbatim>\<open>inspectError\<close> that can throw comes before anything is written, so an exception that
  leaves it leaves the page as it was.
\<close>

fun step :: "event \<Rightarrow> world \<Rightarrow> world" where
  "step (Mount this) w = componentDidMount this w"
| "step (Unmount this) w = componentWillUnmount this w"
| "step (Call_fetchUser this) w = fetchUser this w"
| "step (Resolve_getMe this result) w =
     (if inflight w this = 0 then w
      else getMe_then this result (w\<lparr>inflight := (inflight w)(this := inflight w this - 1)\<rparr>))"
| "step (Call_inspectError err) w = (case inspectError err w of Inr w' \<Rightarrow> w' | Inl _ \<Rightarrow> w)"
| "step (WS_state newState) w = WS_emit_state newState w"

fun run :: "event list \<Rightarrow> world \<Rightarrow> world" where
  "run [] w = w"
| "run (e # es) w = run es (step e w)"


section \<open>Observations on the log\<close>

fun is_getMe :: "effect \<Rightarrow> bool" where
  "is_getMe (getMe _) = True"
| "is_getMe _ = False"

text \<open>How many times \<^verbatim>\<open>Api.users.getMe()\<close> has been called.\<close>

definition network_calls :: "world \<Rightarrow> nat" where
  "network_calls w = length (filter is_getMe (effects w))"

fun is_WS_connect :: "effect \<Rightarrow> bool" where
  "is_WS_connect (WS_connect _) = True"
| "is_WS_connect _ = False"

text \<open>The calls of \<^verbatim>\<open>WS.connect\<close> so far.\<close>

definition WS_connects :: "world \<Rightarrow> effect list" where
  "WS_connects w = filter is_WS_connect (effects w)"

fun is_Mount :: "event \<Rightarrow> bool" where
  "is_Mount (Mount _) = True"
| "is_Mount _ = False"


section \<open>The session state machine of the spec\<close>

text \<open>
  The events of the spec's transition table, and the table itself as the spec lists it:
  Loading to Authenticated(user) on fetch success, Loading to Unauthenticated when the fetch
  reports not-authenticated, Authenticated to Unauthenticated on an interceptor signal,
  Unauthenticated to Loading on reset(), Loading to Loading on an overlapping fetch call.
\<close>

datatype trigger =
    fetch_success FullUser
  | fetch_not_authenticated
  | interceptor_signal
  | reset
  | overlapping_fetch

fun spec_transition :: "user_state \<Rightarrow> trigger \<Rightarrow> user_state option" where
  "spec_transition loading (fetch_success u) = Some (User u)"
| "spec_transition loading fetch_not_authenticated = Some unauthenticated"
| "spec_transition (User u) interceptor_signal = Some unauthenticated"
| "spec_transition unauthenticated reset = Some loading"
| "spec_transition loading overlapping_fetch = Some loading"
| "spec_transition _ _ = None"

text \<open>
  Which event of the table, if any, a step of the page is for the instance \<open>this\<close>: a call of
  \<^verbatim>\<open>fetchUser\<close> (also the one \<^verbatim>\<open>componentDidMount\<close> makes) is a reset with the guard clear and
  an overlapping fetch with the guard set; the completion of an outstanding request is a fetch
  success, or a not-authenticated result when it is an error with status code 1000; a call of
  \<^verbatim>\<open>inspectError\<close> with status code 1000 is an interceptor signal for the registered
  instance.
\<close>

definition fetch_trigger :: "world \<Rightarrow> nat \<Rightarrow> trigger" where
  "fetch_trigger w this = (if fetching (providers w this) then overlapping_fetch else reset)"

fun trigger_of :: "world \<Rightarrow> nat \<Rightarrow> event \<Rightarrow> trigger option" where
  "trigger_of w this (Mount i) = (if i = this then Some (fetch_trigger w this) else None)"
| "trigger_of w this (Call_fetchUser i) = (if i = this then Some (fetch_trigger w this) else None)"
| "trigger_of w this (Resolve_getMe i (Ok u)) =
     (if i = this \<and> 0 < inflight w this then Some (fetch_success u) else None)"
| "trigger_of w this (Resolve_getMe i (Err err)) =
     (if i = this \<and> 0 < inflight w this
         \<and> property err ''status_code'' = Inr (Some (JNumber 1000))
      then Some fetch_not_authenticated else None)"
| "trigger_of w this (Call_inspectError err) =
     (if status_code err = 1000 \<and> USER_PROVIDER w = Some this
      then Some interceptor_signal else None)"
| "trigger_of w this (Unmount i) = None"
| "trigger_of w this (WS_state s) = None"

text \<open>The changes of the session that the code makes and the table does not list.\<close>

fun unlisted_transition :: "user_state \<Rightarrow> trigger \<Rightarrow> user_state option" where
  "unlisted_transition (User u) reset = Some loading"
| "unlisted_transition loading interceptor_signal = Some unauthenticated"
| "unlisted_transition unauthenticated (fetch_success u) = Some (User u)"
| "unlisted_transition _ _ = None"

text \<open>The session after a step, for every page and every event.\<close>

definition code_transition :: "user_state \<Rightarrow> trigger \<Rightarrow> user_state" where
  "code_transition s t =
     (case t of
        fetch_success u \<Rightarrow> User u
      | fetch_not_authenticated \<Rightarrow> unauthenticated
      | interceptor_signal \<Rightarrow> unauthenticated
      | reset \<Rightarrow> loading
      | overlapping_fetch \<Rightarrow> s)"

text \<open>
  At most one request of an instance is outstanding, and then its guard is set; and no session
  is authenticated while its guard is set.
\<close>

definition guard_inv :: "world \<Rightarrow> bool" where
  "guard_inv w =
     (\<forall>i. inflight w i \<le> 1
          \<and> (0 < inflight w i \<longrightarrow> fetching (providers w i))
          \<and> (fetching (providers w i) \<longrightarrow> (\<forall>u. user (providers w i) \<noteq> User u)))"

text \<open>One listener is registered, and the toast of its closure variable is the only persistent one.\<close>

definition one_listener :: "world \<Rightarrow> bool" where
  "one_listener w =
     (case listeners w of
        [rt] \<Rightarrow> persistent w = (case rt of None \<Rightarrow> [] | Some t \<Rightarrow> [t])
      | _ \<Rightarrow> False)"

section \<open>Unfolding the page\<close>

lemmas page_defs =
  init_def new_UserProvider_def componentDidMount_def componentWillUnmount_def fetchUser_def
  request_getMe_def getMe_then_def setState_def set_fetching_def show_toast_def dismiss_def
  emit_def errorToast_def successToast_def default_options_def Let_def Unauthenticated_def
  inspectError_def setState_on_def ApiError_object_def

section \<open>The websocket address\<close>

lemma replace_prefix: "replace (pat @ rest) pat rep = rep @ rest"
proof (cases pat)
  case Nil
  then show ?thesis by (cases rest) simp_all
next
  case (Cons p ps)
  then show ?thesis by simp
qed

text \<open>
  C9. The address handed to \<^verbatim>\<open>WS.connect\<close> is the origin with its scheme substituted: an
  origin \<^verbatim>\<open>http://rest\<close> gives \<^verbatim>\<open>ws://rest/api/v1/ws\<close> and an origin \<^verbatim>\<open>https://rest\<close> gives
  \<^verbatim>\<open>wss://rest/api/v1/ws\<close>, whatever \<^verbatim>\<open>rest\<close> is, and this is the address a successful fetch
  connects to.
\<close>

theorem ws_url_scheme_substitution:
  "ws_url (''http://'' @ rest) = ''ws://'' @ rest @ ''/api/v1/ws''
   \<and> ws_url (''https://'' @ rest) = ''wss://'' @ rest @ ''/api/v1/ws''
   \<and> effects (getMe_then this (Ok usr) w) = effects w @ [WS_connect (ws_url (origin w))]"
proof -
  have a: "replace (''http'' @ (''://'' @ rest)) ''http'' ''ws'' = ''ws'' @ (''://'' @ rest)"
    by (rule replace_prefix)
  have b: "replace (''http'' @ (''s://'' @ rest)) ''http'' ''ws'' = ''ws'' @ (''s://'' @ rest)"
    by (rule replace_prefix)
  have c: "effects (getMe_then this (Ok usr) w) = effects w @ [WS_connect (ws_url (origin w))]"
    by (simp add: getMe_then_def set_fetching_def setState_def emit_def)
  from a b c show ?thesis by (simp add: ws_url_def)
qed

section \<open>The callback of the fetch\<close>

lemma property_ApiError_object:
  "property (ApiError_object e) ''status_code'' = Inr (Some (JNumber (status_code e)))"
  "property (ApiError_object e) ''message'' = Inr (str (message e))"
  by (simp_all add: ApiError_object_def)

lemma property_throws: "property err key = Inl e \<longleftrightarrow> err = JNull \<and> e = TypeError"
  by (cases err) auto

lemma property_defined: "err \<noteq> JNull \<Longrightarrow> \<exists>v. property err key = Inr v"
  by (cases err) auto

lemma getMe_then_Ok:
  "getMe_then this (Ok usr) w =
     set_fetching this False (setState this (User usr) (emit (WS_connect (ws_url (origin w))) w))"
  by (simp add: getMe_then_def)

lemma getMe_then_null: "getMe_then this (Err JNull) w = emit (unhandledrejection TypeError) w"
  by (simp add: getMe_then_def)

lemma getMe_then_Err:
  assumes "property err ''status_code'' = Inr code" and "property err ''message'' = Inr msg"
  shows "getMe_then this (Err err) w =
     set_fetching this False
       (if code = Some (JNumber 1000) then setState this unauthenticated w
        else snd (show_toast error msg default_options w))"
  using assms by (simp add: getMe_then_def Unauthenticated_def)

lemma getMe_then_ApiError_object:
  "getMe_then this (Err (ApiError_object err)) w =
     set_fetching this False
       (if status_code err = 1000 then setState this unauthenticated w
        else snd (show_toast error (str (message err)) default_options w))"
  by (simp add: getMe_then_Err [OF property_ApiError_object])

lemma fetching_getMe_then:
  "fetching (providers (getMe_then i result w) this) =
     (if i = this \<and> result \<noteq> Err JNull then False else fetching (providers w this))"
proof (cases result)
  case (Ok usr)
  then show ?thesis by (simp add: getMe_then_Ok set_fetching_def setState_def emit_def)
next
  case (Err err)
  show ?thesis
  proof (cases "err = JNull")
    case True
    with Err show ?thesis by (simp add: getMe_then_null emit_def)
  next
    case False
    then obtain code msg where "property err ''status_code'' = Inr code"
      and "property err ''message'' = Inr msg"
      using property_defined by blast
    with Err False show ?thesis
      by (simp add: getMe_then_Err set_fetching_def setState_def show_toast_def emit_def Let_def)
  qed
qed

section \<open>fetchUser and its guard\<close>

text \<open>
  C2, as amended. While \<^verbatim>\<open>fetching\<close> is set, \<^verbatim>\<open>fetchUser\<close> changes nothing at all: no state, no
  request. Otherwise it sets the session to loading, sets the guard and issues one request, so
  that a second call made before the first has completed is that no-op, and the two calls
  together make exactly one request. The callback of the request clears the guard for every
  result that is a user or an error other than \<^verbatim>\<open>null\<close>, whatever the status code or the
  shape of the error.
\<close>

theorem fetchUser_idempotent_under_overlap:
  "(fetching (providers w this) \<longrightarrow> fetchUser this w = w)
   \<and> (\<not> fetching (providers w this) \<longrightarrow>
        user (providers (fetchUser this w) this) = loading
      \<and> fetching (providers (fetchUser this w) this)
      \<and> effects (fetchUser this w) = effects w @ [getMe this]
      \<and> inflight (fetchUser this w) this = Suc (inflight w this)
      \<and> fetchUser this (fetchUser this w) = fetchUser this w
      \<and> network_calls (fetchUser this (fetchUser this w)) = Suc (network_calls w)
      \<and> (result \<noteq> Err JNull \<longrightarrow>
           \<not> fetching (providers (step (Resolve_getMe this result) (fetchUser this w)) this)))
   \<and> (result \<noteq> Err JNull \<longrightarrow> \<not> fetching (providers (getMe_then this result w) this))"
proof -
  have guard: "fetching (providers w this) \<Longrightarrow> fetchUser this w = w"
    by (simp add: fetchUser_def)
  have cleared: "\<not> fetching (providers (getMe_then this result v) this)"
    if "result \<noteq> Err JNull" for v
    using that by (simp add: fetching_getMe_then)
  {
    assume nf: "\<not> fetching (providers w this)"
    let ?w = "fetchUser this w"
    have eq: "?w = request_getMe this (setState this loading (set_fetching this True w))"
      using nf by (simp add: fetchUser_def)
    have a: "user (providers ?w this) = loading"
      by (simp add: eq request_getMe_def setState_def set_fetching_def emit_def)
    have b: "fetching (providers ?w this)"
      by (simp add: eq request_getMe_def setState_def set_fetching_def emit_def)
    have c: "effects ?w = effects w @ [getMe this]"
      by (simp add: eq request_getMe_def setState_def set_fetching_def emit_def)
    have d: "inflight ?w this = Suc (inflight w this)"
      by (simp add: eq request_getMe_def setState_def set_fetching_def emit_def)
    have e: "fetchUser this ?w = ?w"
      using b by (simp add: fetchUser_def)
    have f: "network_calls (fetchUser this ?w) = Suc (network_calls w)"
      by (simp add: e c network_calls_def)
    have g: "result \<noteq> Err JNull \<longrightarrow>
        \<not> fetching (providers (step (Resolve_getMe this result) ?w) this)"
      using d cleared by simp
    note a b c d e f g
  }
  with guard cleared show ?thesis by blast
qed

theorem fetchUser_idempotent_under_overlap_witness:
  "\<not> fetching (providers (init ''http://localhost'') 0)
   \<and> fetching (providers (fetchUser 0 (init ''http://localhost'')) 0)
   \<and> network_calls (fetchUser 0 (fetchUser 0 (init ''http://localhost''))) = 1
   \<and> fetchUser 0 (fetchUser 0 (init ''http://localhost'')) = fetchUser 0 (init ''http://localhost'')
   \<and> \<not> fetching (providers
        (step (Resolve_getMe 0 (Err (JObject [(''detail'', JString ''oops'')])))
           (fetchUser 0 (init ''http://localhost''))) 0)"
proof -
  let ?w = "init ''http://localhost''"
  let ?r = "Err (JObject [(''detail'', JString ''oops'')]) :: (FullUser, json) Result"
  have nf: "\<not> fetching (providers ?w 0)"
    by (simp add: init_def new_UserProvider_def)
  have n0: "network_calls ?w = 0"
    by (simp add: init_def network_calls_def)
  have nn: "?r \<noteq> Err JNull" by simp
  from fetchUser_idempotent_under_overlap [of ?w 0 ?r] nf nn
  have f: "fetching (providers (fetchUser 0 ?w) 0)"
    and n: "network_calls (fetchUser 0 (fetchUser 0 ?w)) = Suc (network_calls ?w)"
    and c: "\<not> fetching (providers (step (Resolve_getMe 0 ?r) (fetchUser 0 ?w)) 0)"
    by blast+
  from fetchUser_idempotent_under_overlap [of "fetchUser 0 ?w" 0 ?r] f
  have "fetchUser 0 (fetchUser 0 ?w) = fetchUser 0 ?w" by blast
  with nf f n n0 c show ?thesis by simp
qed

text \<open>
  C2 as stated has the guard cleared for every outcome of the request. An error response
  whose body is the JSON text \<^verbatim>\<open>null\<close> comes out of \<^verbatim>\<open>handleError\<close> as the error \<^verbatim>\<open>null\<close>; when
  the fetch of the mount resolves with it, the callback throws where it reads
  \<^verbatim>\<open>error.status_code\<close>: the guard is still set although no request is outstanding, and a
  further \<^verbatim>\<open>fetchUser\<close> issues no request.
\<close>

theorem guard_stays_set_on_null_error:
  "fst (handleError (Rejected (ResponseError (Response (Some JNull))) :: FullUser promise) [])
     = Fulfilled (Err JNull)
   \<and> fetching (providers (run [Mount 0, Resolve_getMe 0 (Err JNull)] (init ''http://localhost'')) 0)
   \<and> inflight (run [Mount 0, Resolve_getMe 0 (Err JNull)] (init ''http://localhost'')) 0 = 0
   \<and> network_calls (run [Mount 0, Resolve_getMe 0 (Err JNull)] (init ''http://localhost'')) = 1
   \<and> network_calls (run [Mount 0, Resolve_getMe 0 (Err JNull), Call_fetchUser 0]
        (init ''http://localhost'')) = 1"
  by (simp add: page_defs handleError_def parseError_def network_calls_def)

section \<open>inspectError\<close>

text \<open>
  C3. For every error given to \<^verbatim>\<open>inspectError\<close>: with status code 1000 and a registered
  provider, the session of that provider becomes unauthenticated whatever it was, and nothing
  else changes (no request is made, the guard is untouched); with status code 1000 and no
  registered provider, a warning is logged and nothing else changes; with any other status
  code nothing changes. In no case does the call throw.
\<close>

theorem inspectError_cases:
  "(status_code err = 1000 \<and> USER_PROVIDER w = Some p \<longrightarrow>
      (\<exists>w'. inspectError err w = Inr w'
        \<and> user (providers w' p) = unauthenticated
        \<and> w' = w\<lparr>providers := (providers w)(p := (providers w p)\<lparr>user := unauthenticated\<rparr>)\<rparr>
        \<and> effects w' = effects w \<and> inflight w' = inflight w
        \<and> fetching (providers w' p) = fetching (providers w p)))
   \<and> (status_code err = 1000 \<and> USER_PROVIDER w = None \<longrightarrow>
      inspectError err w =
        Inr (w\<lparr>effects := effects w @
                  [CONSOLE_warn ''inspectError has been called without a UserProvider'']\<rparr>))
   \<and> (status_code err \<noteq> 1000 \<longrightarrow> inspectError err w = Inr w)
   \<and> (\<exists>w'. inspectError err w = Inr w')"
  by (cases "USER_PROVIDER w")
     (simp_all add: inspectError_def setState_on_def setState_def emit_def Unauthenticated_def)

theorem inspectError_cases_witness:
  "inspectError \<lparr>status_code = 1000, message = ''x''\<rparr>
       (setState 0 (User \<lparr>displayName = ''Alice'', uuid = ''u1''\<rparr>)
          ((init ''http://localhost'')\<lparr>USER_PROVIDER := Some 0\<rparr>))
     = Inr (setState 0 unauthenticated ((init ''http://localhost'')\<lparr>USER_PROVIDER := Some 0\<rparr>))
   \<and> inspectError \<lparr>status_code = 1000, message = ''x''\<rparr> (init ''http://localhost'')
     = Inr (emit (CONSOLE_warn ''inspectError has been called without a UserProvider'')
              (init ''http://localhost''))
   \<and> inspectError \<lparr>status_code = 2000, message = ''x''\<rparr> (init ''http://localhost'')
     = Inr (init ''http://localhost'')"
  using
    inspectError_cases [of "\<lparr>status_code = 1000, message = ''x''\<rparr>"
       "setState 0 (User \<lparr>displayName = ''Alice'', uuid = ''u1''\<rparr>)
          ((init ''http://localhost'')\<lparr>USER_PROVIDER := Some 0\<rparr>)" 0]
    inspectError_cases [of "\<lparr>status_code = 1000, message = ''x''\<rparr>" "init ''http://localhost''"]
    inspectError_cases [of "\<lparr>status_code = 2000, message = ''x''\<rparr>" "init ''http://localhost''"]
  by (simp add: init_def setState_def emit_def)

section \<open>The singleton slot\<close>

lemma USER_PROVIDER_fetchUser: "USER_PROVIDER (fetchUser this w) = USER_PROVIDER w"
  by (simp add: fetchUser_def request_getMe_def setState_def set_fetching_def emit_def)

lemma USER_PROVIDER_componentDidMount:
  "USER_PROVIDER (componentDidMount this w) =
     (case USER_PROVIDER w of None \<Rightarrow> Some this | Some p \<Rightarrow> Some p)"
  by (simp add: componentDidMount_def USER_PROVIDER_fetchUser show_toast_def emit_def Let_def
           split: option.split)

lemma effects_fetchUser:
  "effects (fetchUser this w) = effects w @ (if fetching (providers w this) then [] else [getMe this])"
  by (simp add: fetchUser_def request_getMe_def setState_def set_fetching_def emit_def)

lemma next_toast_fetchUser: "next_toast (fetchUser this w) = next_toast w"
  by (simp add: fetchUser_def request_getMe_def setState_def set_fetching_def emit_def)

lemma effects_componentDidMount:
  "effects (componentDidMount this w) =
     effects w
     @ (if fetching (providers w this) then [] else [getMe this])
     @ (case USER_PROVIDER w of
          None \<Rightarrow> []
        | Some p \<Rightarrow> [CONSOLE_error (if p = this then ''UserProvider did mount twice''
                                      else ''Two instances of UserProvider are used'')])
     @ [toast warning (fst errorToast) (snd errorToast) (next_toast w), WS_addEventListener]"
  by (simp add: componentDidMount_def USER_PROVIDER_fetchUser effects_fetchUser
        next_toast_fetchUser show_toast_def emit_def Let_def split: option.split)

text \<open>
  C5, as amended. Mounting an instance while another one is registered leaves the slot with
  the first and logs the conflict; mounting with the slot empty takes it. Unmounting clears
  the slot exactly when the instance is its occupant and leaves it as it is otherwise. The
  second instance is not idle, though: its \<^verbatim>\<open>componentDidMount\<close> still starts a fetch of its own
  (when its guard is clear), shows a persistent notification of its own and registers a
  websocket listener of its own. Neither lifecycle method has a \<^verbatim>\<open>throw\<close> or a call on a
  reference that may be \<^verbatim>\<open>null\<close>, so neither has an exceptional result.
\<close>

theorem singleton_slot:
  "(USER_PROVIDER w = Some p \<longrightarrow> USER_PROVIDER (componentDidMount q w) = Some p)
   \<and> (USER_PROVIDER w = Some p \<and> q \<noteq> p \<longrightarrow>
        CONSOLE_error ''Two instances of UserProvider are used''
          \<in> set (effects (componentDidMount q w)))
   \<and> (USER_PROVIDER w = None \<longrightarrow> USER_PROVIDER (componentDidMount q w) = Some q)
   \<and> (USER_PROVIDER w = Some q \<longrightarrow> USER_PROVIDER (componentWillUnmount q w) = None)
   \<and> (USER_PROVIDER w \<noteq> Some q \<longrightarrow>
        USER_PROVIDER (componentWillUnmount q w) = USER_PROVIDER w)
   \<and> (\<not> fetching (providers w q) \<longrightarrow> getMe q \<in> set (effects (componentDidMount q w)))
   \<and> persistent (componentDidMount q w) = persistent w @ [next_toast w]
   \<and> listeners (componentDidMount q w) = listeners w @ [Some (next_toast w)]"
proof -
  have a: "USER_PROVIDER w \<noteq> Some q \<Longrightarrow>
        USER_PROVIDER (componentWillUnmount q w) = USER_PROVIDER w"
    by (simp add: componentWillUnmount_def emit_def)
  have b: "USER_PROVIDER w = Some q \<Longrightarrow> USER_PROVIDER (componentWillUnmount q w) = None"
    by (simp add: componentWillUnmount_def)
  have c: "persistent (componentDidMount q w) = persistent w @ [next_toast w]"
    by (simp add: componentDidMount_def show_toast_def emit_def Let_def errorToast_def
          fetchUser_def request_getMe_def setState_def set_fetching_def)
  have d: "listeners (componentDidMount q w) = listeners w @ [Some (next_toast w)]"
    by (simp add: componentDidMount_def show_toast_def emit_def Let_def errorToast_def
          fetchUser_def request_getMe_def setState_def set_fetching_def)
  show ?thesis
    using a b c d
    by (simp add: USER_PROVIDER_componentDidMount effects_componentDidMount)
qed

theorem singleton_slot_witness:
  "USER_PROVIDER (componentDidMount 0 (init ''http://localhost'')) = Some 0
   \<and> USER_PROVIDER (componentDidMount 1 (componentDidMount 0 (init ''http://localhost''))) = Some 0
   \<and> USER_PROVIDER (componentWillUnmount 1
        (componentDidMount 1 (componentDidMount 0 (init ''http://localhost'')))) = Some 0
   \<and> USER_PROVIDER (componentWillUnmount 0
        (componentDidMount 1 (componentDidMount 0 (init ''http://localhost'')))) = None
   \<and> CONSOLE_error ''Two instances of UserProvider are used''
       \<in> set (effects (componentDidMount 1 (componentDidMount 0 (init ''http://localhost''))))
   \<and> getMe 1
       \<in> set (effects (componentDidMount 1 (componentDidMount 0 (init ''http://localhost''))))"
proof -
  let ?w0 = "init ''http://localhost''"
  let ?w1 = "componentDidMount 0 ?w0"
  let ?w2 = "componentDidMount 1 ?w1"
  have e: "USER_PROVIDER ?w0 = None" by (simp add: init_def)
  from singleton_slot [of ?w0 0 0] e have s1: "USER_PROVIDER ?w1 = Some 0" by blast
  have nf: "\<not> fetching (providers ?w1 1)"
    by (simp add: componentDidMount_def show_toast_def emit_def Let_def fetchUser_def
          request_getMe_def setState_def set_fetching_def init_def new_UserProvider_def)
  from singleton_slot [of ?w1 0 1] s1 nf
  have s2: "USER_PROVIDER ?w2 = Some 0"
    and s5: "CONSOLE_error ''Two instances of UserProvider are used'' \<in> set (effects ?w2)"
    and s6: "getMe 1 \<in> set (effects ?w2)"
    by simp_all
  have ne: "USER_PROVIDER ?w2 \<noteq> Some 1" using s2 by simp
  from singleton_slot [of ?w2 0 1] ne s2
  have s3: "USER_PROVIDER (componentWillUnmount 1 ?w2) = Some 0" by simp
  from singleton_slot [of ?w2 0 0] s2
  have s4: "USER_PROVIDER (componentWillUnmount 0 ?w2) = None" by blast
  from s1 s2 s3 s4 s5 s6 show ?thesis by simp
qed

text \<open>
  C5 as stated says that a second instance only logs the conflict and stays inert. Mounting
  instance 1 after instance 0 on a fresh page issues a second request, a second persistent
  notification and a second listener besides the log entry.
\<close>

theorem second_instance_not_inert:
  "effects (run [Mount 0, Mount 1] (init ''http://localhost'')) =
     [getMe 0,
      toast warning (str ''Connecting websocket...'')
        \<lparr>closeButton = False, closeOnClick = False, autoClose = autoClose_false,
         isLoading = True\<rparr> 0,
      WS_addEventListener,
      getMe 1,
      CONSOLE_error ''Two instances of UserProvider are used'',
      toast warning (str ''Connecting websocket...'')
        \<lparr>closeButton = False, closeOnClick = False, autoClose = autoClose_false,
         isLoading = True\<rparr> 1,
      WS_addEventListener]
   \<and> persistent (run [Mount 0, Mount 1] (init ''http://localhost'')) = [0, 1]
   \<and> inflight (run [Mount 0, Mount 1] (init ''http://localhost'')) 1 = 1"
  by (simp add: effects_componentDidMount init_def new_UserProvider_def errorToast_def
        componentDidMount_def show_toast_def emit_def Let_def
          fetchUser_def request_getMe_def setState_def set_fetching_def)

section \<open>handleError\<close>

text \<open>
  C6, as amended. Whatever the wrapped promise settles with, the promise of \<^verbatim>\<open>handleError\<close> is
  fulfilled, never rejected: with \<^verbatim>\<open>Ok\<close> of the value on fulfilment; with the decoded body,
  untouched, when the rejection is a \<^verbatim>\<open>ResponseError\<close> whose body is JSON, whatever its status
  code and whatever its shape, for nothing checks that the body is an \<^verbatim>\<open>ApiError\<close>; with status
  code -1 when that body is not JSON or the rejection is a \<^verbatim>\<open>RequiredError\<close>; with status code
  -2 on any other exception. So an error that is not the server's own body has status code -1
  or -2.
\<close>

theorem handleError_total:
  "(\<exists>r. fst (handleError promise log) = Fulfilled r)
   \<and> fst (handleError (Fulfilled v) log) = Fulfilled (Ok v)
   \<and> fst (handleError (Rejected (ResponseError (Response (Some body)))) log) = Fulfilled (Err body)
   \<and> fst (handleError (Rejected (ResponseError (Response None))) log) =
       Fulfilled (Err (ApiError_object
         \<lparr>status_code = - 1, message = ''The server's response was invalid json''\<rparr>))
   \<and> fst (handleError (Rejected RequiredError) log) =
       Fulfilled (Err (ApiError_object
         \<lparr>status_code = - 1, message = ''The server's response didn't match the spec''\<rparr>))
   \<and> ((\<forall>response. e \<noteq> ResponseError response) \<and> e \<noteq> RequiredError \<longrightarrow>
        fst (handleError (Rejected e) log) =
          Fulfilled (Err (ApiError_object
            \<lparr>status_code = - 2, message = ''Unknown error occurred''\<rparr>)))
   \<and> (fst (handleError promise log) = Fulfilled (Err err) \<longrightarrow>
        (\<exists>response. promise = Rejected (ResponseError response) \<and> json response = Some err)
        \<or> property err ''status_code'' = Inr (Some (JNumber (- 1)))
        \<or> property err ''status_code'' = Inr (Some (JNumber (- 2))))"
proof -
  have total: "\<exists>r. fst (handleError promise log) = Fulfilled r"
  proof (cases promise)
    case (Fulfilled v)
    then show ?thesis by (simp add: handleError_def)
  next
    case (Rejected x)
    then show ?thesis
      by (cases x) (auto simp: handleError_def parseError_def split: option.split)
  qed
  have ok: "fst (handleError (Fulfilled v) log) = Fulfilled (Ok v)"
    by (simp add: handleError_def)
  have body: "fst (handleError (Rejected (ResponseError (Response (Some body)))) log)
      = Fulfilled (Err body)"
    by (simp add: handleError_def parseError_def)
  have malformed: "fst (handleError (Rejected (ResponseError (Response None))) log) =
       Fulfilled (Err (ApiError_object
         \<lparr>status_code = - 1, message = ''The server's response was invalid json''\<rparr>))"
    by (simp add: handleError_def parseError_def JsonDecodeError_def)
  have required: "fst (handleError (Rejected RequiredError) log) =
       Fulfilled (Err (ApiError_object
         \<lparr>status_code = - 1, message = ''The server's response didn't match the spec''\<rparr>))"
    by (simp add: handleError_def JsonDecodeError_def)
  have other: "(\<forall>response. e \<noteq> ResponseError response) \<and> e \<noteq> RequiredError \<longrightarrow>
        fst (handleError (Rejected e) log) =
          Fulfilled (Err (ApiError_object
            \<lparr>status_code = - 2, message = ''Unknown error occurred''\<rparr>))"
    by (cases e) (simp_all add: handleError_def ArbitraryJSError_def)
  have closed: "fst (handleError promise log) = Fulfilled (Err err) \<longrightarrow>
        (\<exists>response. promise = Rejected (ResponseError response) \<and> json response = Some err)
        \<or> property err ''status_code'' = Inr (Some (JNumber (- 1)))
        \<or> property err ''status_code'' = Inr (Some (JNumber (- 2)))"
  proof (cases promise)
    case (Fulfilled v)
    then show ?thesis by (simp add: handleError_def)
  next
    case (Rejected x)
    then show ?thesis
      by (cases x)
         (auto simp: handleError_def parseError_def JsonDecodeError_def ArbitraryJSError_def
               property_ApiError_object split: option.splits)
  qed
  from total ok body malformed required other closed show ?thesis by blast
qed

theorem handleError_total_witness:
  "fst (handleError (Rejected TypeError :: FullUser promise) []) =
     Fulfilled (Err (ApiError_object \<lparr>status_code = - 2, message = ''Unknown error occurred''\<rparr>))
   \<and> fst (handleError
        (Rejected (ResponseError (Response (Some
           (ApiError_object \<lparr>status_code = 2000, message = ''x''\<rparr>))))
           :: FullUser promise) []) =
     Fulfilled (Err (ApiError_object \<lparr>status_code = 2000, message = ''x''\<rparr>))
   \<and> json (Response (Some (ApiError_object \<lparr>status_code = 2000, message = ''x''\<rparr>)))
       = Some (ApiError_object \<lparr>status_code = 2000, message = ''x''\<rparr>)"
proof -
  let ?body = "ApiError_object \<lparr>status_code = 2000, message = ''x''\<rparr>"
  let ?p = "Rejected (ResponseError (Response (Some ?body))) :: FullUser promise"
  have other: "(\<forall>response. TypeError \<noteq> ResponseError response) \<and> TypeError \<noteq> RequiredError"
    by simp
  from handleError_total [where promise = ?p and log = "[]" and e = TypeError
      and body = ?body and err = ?body and v = "\<lparr>displayName = ''Alice'', uuid = ''u1''\<rparr>"] other
  have a: "fst (handleError (Rejected TypeError :: FullUser promise) []) =
        Fulfilled (Err (ApiError_object
          \<lparr>status_code = - 2, message = ''Unknown error occurred''\<rparr>))"
    and b: "fst (handleError ?p []) = Fulfilled (Err ?body)"
    by blast+
  from a b show ?thesis by simp
qed

text \<open>
  C6 as stated has status code -1 whenever the response fails to decode to the expected shape.
  An error response whose body is JSON but no \<^verbatim>\<open>ApiError\<close>, here an object without a status
  code, is handed on as it is: the error of the result is that object, and its status code
  is \<^verbatim>\<open>undefined\<close>, not -1.
\<close>

theorem ill_shaped_body_passed_through:
  "fst (handleError
         (Rejected (ResponseError (Response (Some (JObject [(''detail'', JString ''oops'')]))))
            :: FullUser promise) [])
     = Fulfilled (Err (JObject [(''detail'', JString ''oops'')]))
   \<and> property (JObject [(''detail'', JString ''oops'')]) ''status_code'' = Inr None"
  by (simp add: handleError_def parseError_def)

section \<open>Fetch results that are errors\<close>

text \<open>
  C7. When the fetch resolves with an error whose status code is not 1000, the callback shows
  the error's message, as it is, in a toast with the default options (so not a persistent
  one), leaves the session as it was, and clears the guard, so that a further \<^verbatim>\<open>fetchUser\<close> is
  accepted and issues a request: nothing has ended. After a \<^verbatim>\<open>fetchUser\<close> the session it left
  is loading, and the loading view is rendered. When the status code is 1000 no toast is
  shown; the session becomes unauthenticated and the login view is rendered. The same holds of
  an error value that is no \<^verbatim>\<open>ApiError\<close> but whose properties can be read: what it has as
  \<^verbatim>\<open>message\<close> is shown when what it has as \<^verbatim>\<open>status_code\<close> is not the number 1000.
\<close>

theorem fetch_error_handling:
  "(status_code err \<noteq> 1000 \<longrightarrow>
      effects (getMe_then this (Err (ApiError_object err)) w) =
        effects w @ [toast error (str (message err)) default_options (next_toast w)]
    \<and> persistent (getMe_then this (Err (ApiError_object err)) w) = persistent w
    \<and> user (providers (getMe_then this (Err (ApiError_object err)) w) this)
        = user (providers w this)
    \<and> effects (fetchUser this (getMe_then this (Err (ApiError_object err)) w)) =
        effects (getMe_then this (Err (ApiError_object err)) w) @ [getMe this]
    \<and> (\<not> fetching (providers w this) \<longrightarrow>
         user (providers (step (Resolve_getMe this (Err (ApiError_object err)))
            (fetchUser this w)) this) = loading
       \<and> render (providers (step (Resolve_getMe this (Err (ApiError_object err)))
            (fetchUser this w)) this) = Loading_div))
   \<and> (status_code err = 1000 \<longrightarrow>
      effects (getMe_then this (Err (ApiError_object err)) w) = effects w
    \<and> user (providers (getMe_then this (Err (ApiError_object err)) w) this) = unauthenticated
    \<and> render (providers (getMe_then this (Err (ApiError_object err)) w) this) = Login)
   \<and> (property errv ''status_code'' = Inr code \<and> code \<noteq> Some (JNumber 1000)
        \<and> property errv ''message'' = Inr msg \<longrightarrow>
      effects (getMe_then this (Err errv) w) =
        effects w @ [toast error msg default_options (next_toast w)]
    \<and> persistent (getMe_then this (Err errv) w) = persistent w
    \<and> user (providers (getMe_then this (Err errv) w) this) = user (providers w this))"
proof -
  let ?r = "Err (ApiError_object err) :: (FullUser, json) Result"
  have any: "effects (getMe_then this (Err errv) w) =
        effects w @ [toast error msg default_options (next_toast w)]
    \<and> persistent (getMe_then this (Err errv) w) = persistent w
    \<and> user (providers (getMe_then this (Err errv) w) this) = user (providers w this)"
    if "property errv ''status_code'' = Inr code" and "code \<noteq> Some (JNumber 1000)"
      and "property errv ''message'' = Inr msg"
    using that
    by (simp add: getMe_then_Err set_fetching_def show_toast_def emit_def default_options_def
          Let_def)
  have unauth: "status_code err = 1000 \<Longrightarrow>
      effects (getMe_then this ?r w) = effects w
    \<and> user (providers (getMe_then this ?r w) this) = unauthenticated
    \<and> render (providers (getMe_then this ?r w) this) = Login"
    by (simp add: getMe_then_ApiError_object set_fetching_def setState_def render_def)
  have other: "status_code err \<noteq> 1000 \<Longrightarrow>
      effects (getMe_then this ?r v) =
        effects v @ [toast error (str (message err)) default_options (next_toast v)]
    \<and> persistent (getMe_then this ?r v) = persistent v
    \<and> user (providers (getMe_then this ?r v) this) = user (providers v this)
    \<and> \<not> fetching (providers (getMe_then this ?r v) this)" for v
    by (simp add: getMe_then_ApiError_object set_fetching_def show_toast_def emit_def
          default_options_def Let_def)
  have retry: "status_code err \<noteq> 1000 \<Longrightarrow>
      effects (fetchUser this (getMe_then this ?r w)) = effects (getMe_then this ?r w) @ [getMe this]"
    using other [of w] by (simp add: effects_fetchUser)
  have stay: "status_code err \<noteq> 1000 \<Longrightarrow> \<not> fetching (providers w this) \<Longrightarrow>
         user (providers (step (Resolve_getMe this ?r) (fetchUser this w)) this) = loading
       \<and> render (providers (step (Resolve_getMe this ?r) (fetchUser this w)) this) = Loading_div"
    by (simp add: fetchUser_def request_getMe_def setState_def set_fetching_def emit_def
          getMe_then_ApiError_object show_toast_def Let_def render_def)
  from unauth other [of w] retry stay any show ?thesis by blast
qed

theorem fetch_error_handling_witness:
  "effects (getMe_then 0 (Err (ApiError_object \<lparr>status_code = 2000, message = ''boom''\<rparr>))
       (fetchUser 0 (init ''http://localhost''))) =
     [getMe 0, toast error (str ''boom'') default_options 0]
   \<and> user (providers
        (step (Resolve_getMe 0 (Err (ApiError_object \<lparr>status_code = 2000, message = ''boom''\<rparr>)))
           (fetchUser 0 (init ''http://localhost''))) 0) = loading
   \<and> effects (getMe_then 0 (Err (ApiError_object \<lparr>status_code = 1000, message = ''no session''\<rparr>))
       (fetchUser 0 (init ''http://localhost''))) = [getMe 0]
   \<and> render (providers
        (getMe_then 0 (Err (ApiError_object \<lparr>status_code = 1000, message = ''no session''\<rparr>))
           (fetchUser 0 (init ''http://localhost''))) 0) = Login
   \<and> effects (getMe_then 0 (Err (JObject [(''detail'', JString ''oops'')]))
       (fetchUser 0 (init ''http://localhost''))) = [getMe 0, toast error None default_options 0]"
proof -
  let ?w = "init ''http://localhost''"
  let ?boom = "\<lparr>status_code = 2000, message = ''boom''\<rparr>"
  let ?none = "\<lparr>status_code = 1000, message = ''no session''\<rparr>"
  have nf: "\<not> fetching (providers ?w 0)"
    by (simp add: init_def new_UserProvider_def)
  have e: "effects (fetchUser 0 ?w) = [getMe 0]" "next_toast (fetchUser 0 ?w) = 0"
    using nf by (simp_all add: effects_fetchUser next_toast_fetchUser init_def)
  from fetch_error_handling [of ?boom 0 "fetchUser 0 ?w"] e
  have a: "effects (getMe_then 0 (Err (ApiError_object ?boom)) (fetchUser 0 ?w)) =
     [getMe 0, toast error (str ''boom'') default_options 0]"
    by simp
  from fetch_error_handling [of ?boom 0 ?w] nf
  have b: "user (providers (step (Resolve_getMe 0 (Err (ApiError_object ?boom)))
        (fetchUser 0 ?w)) 0) = loading"
    by simp
  from fetch_error_handling [of ?none 0 "fetchUser 0 ?w"] e
  have c: "effects (getMe_then 0 (Err (ApiError_object ?none)) (fetchUser 0 ?w)) = [getMe 0]"
    and d: "render (providers (getMe_then 0 (Err (ApiError_object ?none)) (fetchUser 0 ?w)) 0)
        = Login"
    by simp_all
  have p: "property (JObject [(''detail'', JString ''oops'')]) ''status_code'' = Inr None
      \<and> None \<noteq> Some (JNumber 1000)
      \<and> property (JObject [(''detail'', JString ''oops'')]) ''message'' = Inr None"
    by simp
  from fetch_error_handling [where errv = "JObject [(''detail'', JString ''oops'')]"
      and code = None and msg = None and this = 0 and w = "fetchUser 0 ?w" and err = ?boom] p e
  have f: "effects (getMe_then 0 (Err (JObject [(''detail'', JString ''oops'')])) (fetchUser 0 ?w))
      = [getMe 0, toast error None default_options 0]"
    by simp
  from a b c d f show ?thesis by simp
qed

section \<open>The notification shown on mount\<close>


lemma WS_connects_componentDidMount: "WS_connects (componentDidMount this w) = WS_connects w"
  by (simp add: WS_connects_def effects_componentDidMount split: option.split)

text \<open>
  C10. \<^verbatim>\<open>componentDidMount\<close> always shows the persistent "Connecting websocket..." toast, and
  it does not call \<^verbatim>\<open>WS.connect\<close>. On a fresh page the request of the mount is still
  outstanding and the session still loading when the toast is up; and when that request then
  resolves with status code 1000, the session is unauthenticated, \<^verbatim>\<open>WS.connect\<close> has never
  been called, and the toast is still shown.
\<close>

theorem connecting_toast_on_mount:
  "toast warning (str ''Connecting websocket...'')
       \<lparr>closeButton = False, closeOnClick = False, autoClose = autoClose_false, isLoading = True\<rparr>
       (next_toast w)
     \<in> set (effects (componentDidMount this w))
   \<and> persistent (componentDidMount this w) = persistent w @ [next_toast w]
   \<and> WS_connects (componentDidMount this w) = WS_connects w
   \<and> inflight (componentDidMount this (init org)) this = 1
   \<and> user (providers (componentDidMount this (init org)) this) = loading
   \<and> user (providers (run [Mount this, Resolve_getMe this (Err (ApiError_object \<lparr>status_code = 1000, message = m\<rparr>))]
        (init org)) this) = unauthenticated
   \<and> WS_connects (run [Mount this, Resolve_getMe this (Err (ApiError_object \<lparr>status_code = 1000, message = m\<rparr>))]
        (init org)) = []
   \<and> persistent (run [Mount this, Resolve_getMe this (Err (ApiError_object \<lparr>status_code = 1000, message = m\<rparr>))]
        (init org)) = [0]"
proof -
  have a: "toast warning (str ''Connecting websocket...'')
       \<lparr>closeButton = False, closeOnClick = False, autoClose = autoClose_false, isLoading = True\<rparr>
       (next_toast w)
     \<in> set (effects (componentDidMount this w))"
    by (simp add: effects_componentDidMount errorToast_def)
  have b: "persistent (componentDidMount this w) = persistent w @ [next_toast w]"
    by (simp add: componentDidMount_def show_toast_def emit_def Let_def errorToast_def
          fetchUser_def request_getMe_def setState_def set_fetching_def)
  let ?w1 = "componentDidMount this (init org)"
  have d: "inflight ?w1 this = 1" "user (providers ?w1 this) = loading"
    "persistent ?w1 = [0]" "WS_connects ?w1 = []"
    by (simp_all add: WS_connects_componentDidMount,
        simp_all add: componentDidMount_def show_toast_def emit_def Let_def errorToast_def
          fetchUser_def request_getMe_def setState_def set_fetching_def init_def
          new_UserProvider_def WS_connects_def)
  let ?r = "Resolve_getMe this (Err (ApiError_object \<lparr>status_code = 1000, message = m\<rparr>))"
  have e: "user (providers (step ?r ?w1) this) = unauthenticated"
    "persistent (step ?r ?w1) = persistent ?w1"
    "WS_connects (step ?r ?w1) = WS_connects ?w1"
    using d(1)
    by (simp_all add: getMe_then_ApiError_object setState_def set_fetching_def WS_connects_def)
  from a b d e show ?thesis by (simp add: WS_connects_componentDidMount)
qed

section \<open>Steps of the page\<close>

lemma providers_state_listener: "providers (snd (state_listener s rt w)) = providers w"
  by (cases s; cases rt)
     (simp_all add: state_listener_def show_toast_def dismiss_def emit_def Let_def)

lemma inflight_state_listener: "inflight (snd (state_listener s rt w)) = inflight w"
  by (cases s; cases rt)
     (simp_all add: state_listener_def show_toast_def dismiss_def emit_def Let_def)


lemma providers_dispatch: "providers (snd (dispatch s rts w)) = providers w"
  by (induction rts arbitrary: w) (simp_all add: split_beta Let_def providers_state_listener)

lemma inflight_dispatch: "inflight (snd (dispatch s rts w)) = inflight w"
  by (induction rts arbitrary: w) (simp_all add: split_beta Let_def inflight_state_listener)


lemma providers_WS_emit_state: "providers (WS_emit_state s w) = providers w"
  by (simp add: WS_emit_state_def split_beta providers_dispatch)

lemma inflight_WS_emit_state: "inflight (WS_emit_state s w) = inflight w"
  by (simp add: WS_emit_state_def split_beta inflight_dispatch)


lemma providers_componentDidMount:
  "providers (componentDidMount this w) = providers (fetchUser this w)"
  by (simp add: componentDidMount_def show_toast_def emit_def Let_def)

lemma inflight_componentDidMount:
  "inflight (componentDidMount this w) = inflight (fetchUser this w)"
  by (simp add: componentDidMount_def show_toast_def emit_def Let_def)

lemma providers_componentWillUnmount: "providers (componentWillUnmount this w) = providers w"
  by (simp add: componentWillUnmount_def emit_def)

lemma inflight_componentWillUnmount: "inflight (componentWillUnmount this w) = inflight w"
  by (simp add: componentWillUnmount_def emit_def)

lemma user_fetchUser:
  "user (providers (fetchUser i w) this) =
     (if i = this \<and> \<not> fetching (providers w this) then loading else user (providers w this))"
  by (simp add: fetchUser_def request_getMe_def setState_def set_fetching_def emit_def)

lemma user_getMe_then:
  "user (providers (getMe_then i result w) this) =
     (if i = this then
        (case result of
           Ok u \<Rightarrow> User u
         | Err err \<Rightarrow>
             if property err ''status_code'' = Inr (Some (JNumber 1000)) then unauthenticated
             else user (providers w this))
      else user (providers w this))"
proof (cases result)
  case (Ok usr)
  then show ?thesis by (simp add: getMe_then_Ok set_fetching_def setState_def emit_def)
next
  case (Err err)
  show ?thesis
  proof (cases "err = JNull")
    case True
    with Err show ?thesis by (simp add: getMe_then_null emit_def)
  next
    case False
    then obtain code msg where "property err ''status_code'' = Inr code"
      and "property err ''message'' = Inr msg"
      using property_defined by blast
    with Err show ?thesis
      by (simp add: getMe_then_Err set_fetching_def setState_def show_toast_def emit_def Let_def)
  qed
qed

lemma user_inspectError:
  "user (providers (case inspectError err w of Inr w' \<Rightarrow> w' | Inl _ \<Rightarrow> w) this) =
     (if status_code err = 1000 \<and> USER_PROVIDER w = Some this then unauthenticated
      else user (providers w this))"
  by (cases "USER_PROVIDER w")
     (simp_all add: inspectError_def setState_on_def setState_def emit_def Unauthenticated_def)

lemma user_step:
  "user (providers (step e w) this) =
     (case trigger_of w this e of
        None \<Rightarrow> user (providers w this)
      | Some t \<Rightarrow> code_transition (user (providers w this)) t)"
proof (cases e)
  case (Mount i)
  then show ?thesis
    by (simp add: providers_componentDidMount user_fetchUser fetch_trigger_def code_transition_def)
next
  case (Unmount i)
  then show ?thesis by (simp add: providers_componentWillUnmount)
next
  case (Call_fetchUser i)
  then show ?thesis
    by (simp add: user_fetchUser fetch_trigger_def code_transition_def)
next
  case (Resolve_getMe i result)
  have "user (providers (getMe_then i result (w\<lparr>inflight := (inflight w)(i := inflight w i - 1)\<rparr>)) this)
      = (if i = this then
        (case result of
           Ok u \<Rightarrow> User u
         | Err err \<Rightarrow>
             if property err ''status_code'' = Inr (Some (JNumber 1000)) then unauthenticated
             else user (providers w this))
      else user (providers w this))"
    by (simp add: user_getMe_then split: Result.split)
  with Resolve_getMe show ?thesis
    by (cases result) (auto simp: code_transition_def)
next
  case (Call_inspectError err)
  then show ?thesis
    by (simp add: user_inspectError code_transition_def)
next
  case (WS_state s)
  then show ?thesis by (simp add: providers_WS_emit_state)
qed

section \<open>The session state machine\<close>

lemma guard_inv_init: "guard_inv (init org)"
  by (simp add: guard_inv_def init_def new_UserProvider_def)

lemma fetching_fetchUser:
  "fetching (providers (fetchUser i w) this) = (i = this \<or> fetching (providers w this))"
  by (simp add: fetchUser_def request_getMe_def setState_def set_fetching_def emit_def)

lemma inflight_fetchUser:
  "inflight (fetchUser i w) this =
     (if i = this \<and> \<not> fetching (providers w this) then Suc (inflight w this)
      else inflight w this)"
  by (simp add: fetchUser_def request_getMe_def setState_def set_fetching_def emit_def)

lemma guard_inv_fetchUser:
  assumes "guard_inv w"
  shows "guard_inv (fetchUser i w)"
proof -
  have "inflight (fetchUser i w) j \<le> 1
      \<and> (0 < inflight (fetchUser i w) j \<longrightarrow> fetching (providers (fetchUser i w) j))
      \<and> (fetching (providers (fetchUser i w) j) \<longrightarrow>
           (\<forall>u. user (providers (fetchUser i w) j) \<noteq> User u))" for j
  proof -
    from assms have "inflight w j \<le> 1" and "0 < inflight w j \<longrightarrow> fetching (providers w j)"
      and "fetching (providers w j) \<longrightarrow> (\<forall>u. user (providers w j) \<noteq> User u)"
      unfolding guard_inv_def by blast+
    then show ?thesis
      by (auto simp: fetching_fetchUser inflight_fetchUser user_fetchUser)
  qed
  then show ?thesis unfolding guard_inv_def by blast
qed

lemma inflight_getMe_then: "inflight (getMe_then i result w) = inflight w"
proof (cases result)
  case (Ok usr)
  then show ?thesis by (simp add: getMe_then_Ok set_fetching_def setState_def emit_def)
next
  case (Err err)
  show ?thesis
  proof (cases "err = JNull")
    case True
    with Err show ?thesis by (simp add: getMe_then_null emit_def)
  next
    case False
    then obtain code msg where "property err ''status_code'' = Inr code"
      and "property err ''message'' = Inr msg"
      using property_defined by blast
    with Err show ?thesis
      by (simp add: getMe_then_Err set_fetching_def setState_def show_toast_def emit_def Let_def)
  qed
qed

lemma guard_inv_Resolve: "guard_inv w \<Longrightarrow> guard_inv (step (Resolve_getMe i result) w)"
  unfolding guard_inv_def
  by (auto simp: fetching_getMe_then inflight_getMe_then user_getMe_then
           split: if_splits Result.splits)

lemma fetching_inspectError:
  "fetching (providers (case inspectError err w of Inr w' \<Rightarrow> w' | Inl _ \<Rightarrow> w) this) =
     fetching (providers w this)"
  by (cases "USER_PROVIDER w")
     (simp_all add: inspectError_def setState_on_def setState_def emit_def)

lemma inflight_inspectError:
  "inflight (case inspectError err w of Inr w' \<Rightarrow> w' | Inl _ \<Rightarrow> w) = inflight w"
  by (cases "USER_PROVIDER w")
     (simp_all add: inspectError_def setState_on_def setState_def emit_def)

lemma guard_inv_step: "guard_inv w \<Longrightarrow> guard_inv (step e w)"
proof (cases e)
  case (Mount i)
  assume "guard_inv w"
  then have "guard_inv (fetchUser i w)" by (rule guard_inv_fetchUser)
  then show ?thesis
    by (simp add: Mount guard_inv_def providers_componentDidMount inflight_componentDidMount)
next
  case (Unmount i)
  assume "guard_inv w"
  then show ?thesis
    by (simp add: Unmount guard_inv_def providers_componentWillUnmount
          inflight_componentWillUnmount)
next
  case (Call_fetchUser i)
  assume "guard_inv w"
  then show ?thesis by (simp add: Call_fetchUser guard_inv_fetchUser)
next
  case (Resolve_getMe i result)
  assume "guard_inv w"
  then show ?thesis unfolding Resolve_getMe by (rule guard_inv_Resolve)
next
  case (Call_inspectError err)
  assume "guard_inv w"
  then show ?thesis
    unfolding guard_inv_def Call_inspectError
    by (simp add: fetching_inspectError inflight_inspectError user_inspectError)
next
  case (WS_state s)
  assume "guard_inv w"
  then show ?thesis
    by (simp add: WS_state guard_inv_def providers_WS_emit_state inflight_WS_emit_state)
qed

lemma guard_inv_run: "guard_inv w \<Longrightarrow> guard_inv (run tr w)"
  by (induction tr arbitrary: w) (simp_all add: guard_inv_step)

lemma trigger_fetch_success_inflight:
  "trigger_of w this e = Some (fetch_success u) \<Longrightarrow> 0 < inflight w this"
proof (cases e)
  case (Resolve_getMe i result)
  assume "trigger_of w this e = Some (fetch_success u)"
  with Resolve_getMe show ?thesis by (cases result) (simp_all split: if_splits)
qed (simp_all add: fetch_trigger_def split: if_splits)

lemma trigger_fetch_not_authenticated_inflight:
  "trigger_of w this e = Some fetch_not_authenticated \<Longrightarrow> 0 < inflight w this"
proof (cases e)
  case (Resolve_getMe i result)
  assume "trigger_of w this e = Some fetch_not_authenticated"
  with Resolve_getMe show ?thesis by (cases result) (simp_all split: if_splits)
qed (simp_all add: fetch_trigger_def split: if_splits)

lemma guard_inv_inflight_not_User:
  "guard_inv w \<Longrightarrow> 0 < inflight w this \<Longrightarrow> user (providers w this) \<noteq> User u"
  unfolding guard_inv_def by blast

text \<open>
  C1, as amended. Each transition of the spec's table is realized: whenever a step is an event
  of the table for an instance and the table has an entry for the session of the instance
  and that event, the session after the step is the one the table gives. And on every page
  reached from the initial one, every step that changes the session of an instance is an
  event of the table, and the change is either an entry of the table or one of three more:
  authenticated to loading on a reset, loading to unauthenticated on an interceptor signal,
  unauthenticated to authenticated on a fetch success.
\<close>

theorem session_transitions:
  "(trigger_of w this e = Some t \<and> spec_transition (user (providers w this)) t = Some s'
      \<longrightarrow> user (providers (step e w) this) = s')
   \<and> (user (providers (step e (run tr (init org))) this) \<noteq> user (providers (run tr (init org)) this)
      \<longrightarrow> (\<exists>t'. trigger_of (run tr (init org)) this e = Some t'
            \<and> (spec_transition (user (providers (run tr (init org)) this)) t'
                 = Some (user (providers (step e (run tr (init org))) this))
               \<or> unlisted_transition (user (providers (run tr (init org)) this)) t'
                 = Some (user (providers (step e (run tr (init org))) this)))))"
proof -
  have listed: "user (providers (step e w) this) = s'"
    if "trigger_of w this e = Some t" and "spec_transition (user (providers w this)) t = Some s'"
    using that
    by (cases "user (providers w this)"; cases t) (simp_all add: user_step code_transition_def)
  let ?w = "run tr (init org)"
  let ?s = "user (providers ?w this)"
  let ?s' = "user (providers (step e ?w) this)"
  have only: "\<exists>t'. trigger_of ?w this e = Some t'
      \<and> (spec_transition ?s t' = Some ?s' \<or> unlisted_transition ?s t' = Some ?s')"
    if changed: "?s' \<noteq> ?s"
  proof -
    have inv: "guard_inv ?w" by (simp add: guard_inv_run guard_inv_init)
    from changed obtain t' where t': "trigger_of ?w this e = Some t'"
      and s': "?s' = code_transition ?s t'"
      by (cases "trigger_of ?w this e") (simp_all add: user_step)
    have "spec_transition ?s t' = Some ?s' \<or> unlisted_transition ?s t' = Some ?s'"
    proof (cases t')
      case (fetch_success u)
      with t' have "0 < inflight ?w this" by (simp add: trigger_fetch_success_inflight)
      with inv have "\<And>v. ?s \<noteq> User v" by (rule guard_inv_inflight_not_User)
      with s' fetch_success show ?thesis
        by (cases ?s) (auto simp: code_transition_def)
    next
      case fetch_not_authenticated
      with t' have "0 < inflight ?w this"
        by (simp add: trigger_fetch_not_authenticated_inflight)
      with inv have "\<And>v. ?s \<noteq> User v" by (rule guard_inv_inflight_not_User)
      with s' changed fetch_not_authenticated show ?thesis
        by (cases ?s) (auto simp: code_transition_def)
    next
      case interceptor_signal
      with s' changed show ?thesis
        by (cases ?s) (simp_all add: code_transition_def)
    next
      case reset
      with s' changed show ?thesis
        by (cases ?s) (simp_all add: code_transition_def)
    next
      case overlapping_fetch
      with s' changed show ?thesis by (simp add: code_transition_def)
    qed
    with t' show ?thesis by blast
  qed
  from listed only show ?thesis by blast
qed

theorem session_transitions_witness:
  "user (providers (step (Resolve_getMe 0 (Ok \<lparr>displayName = ''Alice'', uuid = ''u1''\<rparr>))
       (run [Mount 0] (init ''http://localhost''))) 0) = User \<lparr>displayName = ''Alice'', uuid = ''u1''\<rparr>
   \<and> user (providers (run [Mount 0] (init ''http://localhost'')) 0) = loading
   \<and> user (providers (step (Call_inspectError \<lparr>status_code = 1000, message = ''x''\<rparr>)
       (run [Mount 0] (init ''http://localhost''))) 0) = unauthenticated
   \<and> trigger_of (run [Mount 0] (init ''http://localhost'')) 0
       (Call_inspectError \<lparr>status_code = 1000, message = ''x''\<rparr>) = Some interceptor_signal
   \<and> unlisted_transition loading interceptor_signal = Some unauthenticated"
proof -
  let ?alice = "\<lparr>displayName = ''Alice'', uuid = ''u1''\<rparr>"
  let ?w = "run [Mount 0] (init ''http://localhost'')"
  let ?e = "Call_inspectError \<lparr>status_code = 1000, message = ''x''\<rparr>"
  have s: "user (providers ?w 0) = loading"
    and t: "trigger_of ?w 0 (Resolve_getMe 0 (Ok ?alice)) = Some (fetch_success ?alice)"
    and t': "trigger_of ?w 0 ?e = Some interceptor_signal"
    by (simp_all add: page_defs)
  have l: "spec_transition loading (fetch_success ?alice) = Some (User ?alice)" by simp
  from session_transitions [of ?w 0 "Resolve_getMe 0 (Ok ?alice)" "fetch_success ?alice"
      "User ?alice"] s t l
  have a: "user (providers (step (Resolve_getMe 0 (Ok ?alice)) ?w) 0) = User ?alice"
    by simp
  have c: "user (providers (step ?e ?w) 0) \<noteq> user (providers ?w 0)"
    by (simp add: page_defs)
  from session_transitions [where tr = "[Mount 0]" and org = "''http://localhost''" and this = 0
      and e = ?e and w = ?w and t = interceptor_signal and s' = unauthenticated] c
  obtain t'' where "trigger_of ?w 0 ?e = Some t''"
    and "spec_transition (user (providers ?w 0)) t'' = Some (user (providers (step ?e ?w) 0))
       \<or> unlisted_transition (user (providers ?w 0)) t'' = Some (user (providers (step ?e ?w) 0))"
    by blast
  with t' s have b: "user (providers (step ?e ?w) 0) = unauthenticated"
    by auto
  from a b s t' show ?thesis by simp
qed

text \<open>
  Each of the three changes outside the table happens on a page reached from the initial one:
  a reset of an authenticated session, an interceptor signal while the first fetch is under
  way, and the success of that fetch after the signal.
\<close>

lemma unlisted_transitions_occur:
  "user (providers (run [Mount 0, Resolve_getMe 0 (Ok \<lparr>displayName = ''Alice'', uuid = ''u1''\<rparr>),
         Call_fetchUser 0] (init ''http://localhost'')) 0) = loading
   \<and> user (providers (run [Mount 0] (init ''http://localhost'')) 0) = loading
   \<and> user (providers (run [Mount 0, Call_inspectError \<lparr>status_code = 1000, message = ''x''\<rparr>]
         (init ''http://localhost'')) 0) = unauthenticated
   \<and> user (providers (run [Mount 0, Call_inspectError \<lparr>status_code = 1000, message = ''x''\<rparr>,
         Resolve_getMe 0 (Ok \<lparr>displayName = ''Alice'', uuid = ''u1''\<rparr>)]
         (init ''http://localhost'')) 0) = User \<lparr>displayName = ''Alice'', uuid = ''u1''\<rparr>"
  by (simp add: page_defs)

text \<open>
  C1 as stated allows no transition outside the table. After the mount and a successful fetch
  the session is authenticated; \<^verbatim>\<open>reset\<close> of the context, which is \<^verbatim>\<open>fetchUser\<close>, then finds the
  guard clear and sets the session to loading, and the table has no entry for a reset of an
  authenticated session.
\<close>

theorem reset_while_authenticated:
  "user (providers (run [Mount 0, Resolve_getMe 0 (Ok \<lparr>displayName = ''Alice'', uuid = ''u1''\<rparr>)]
       (init ''http://localhost'')) 0) = User \<lparr>displayName = ''Alice'', uuid = ''u1''\<rparr>
   \<and> trigger_of (run [Mount 0, Resolve_getMe 0 (Ok \<lparr>displayName = ''Alice'', uuid = ''u1''\<rparr>)]
       (init ''http://localhost'')) 0 (Call_fetchUser 0) = Some reset
   \<and> user (providers (run [Mount 0, Resolve_getMe 0 (Ok \<lparr>displayName = ''Alice'', uuid = ''u1''\<rparr>),
         Call_fetchUser 0] (init ''http://localhost'')) 0) = loading
   \<and> spec_transition (User \<lparr>displayName = ''Alice'', uuid = ''u1''\<rparr>) reset = None"
  by (simp add: page_defs fetch_trigger_def)

section \<open>When the websocket is connected\<close>









section \<open>The connection notifications\<close>

lemma state_listener_connected:
  "state_listener connected rt w =
     (None,
      snd (show_toast success (str ''Websocket has connected'')
             (default_options\<lparr>autoClose := autoClose_ms 1000\<rparr>)
             (case rt of Some t \<Rightarrow> dismiss t w | None \<Rightarrow> w)))"
  by (cases rt) (simp_all add: state_listener_def successToast_def)

lemma state_listener_other_None:
  "s \<noteq> connected \<Longrightarrow>
   state_listener s None w =
     (Some (next_toast w), snd (show_toast error (fst errorToast) (snd errorToast) w))"
  by (cases s) (simp_all add: state_listener_def show_toast_def Let_def)

lemma state_listener_other_Some:
  "s \<noteq> connected \<Longrightarrow> state_listener s (Some t) w = (Some t, w)"
  by (cases s) (simp_all add: state_listener_def)

lemma persistent_state_listener:
  "persistent w = (case rt of None \<Rightarrow> [] | Some t \<Rightarrow> [t]) \<Longrightarrow>
   persistent (snd (state_listener s rt w)) =
     (case fst (state_listener s rt w) of None \<Rightarrow> [] | Some t \<Rightarrow> [t])"
proof (cases "s = connected")
  case True
  assume "persistent w = (case rt of None \<Rightarrow> [] | Some t \<Rightarrow> [t])"
  with True show ?thesis
    by (cases rt)
       (simp_all add: state_listener_connected show_toast_def dismiss_def emit_def Let_def
          default_options_def)
next
  case False
  assume "persistent w = (case rt of None \<Rightarrow> [] | Some t \<Rightarrow> [t])"
  with False show ?thesis
    by (cases rt)
       (simp_all add: state_listener_other_None state_listener_other_Some show_toast_def
          emit_def Let_def errorToast_def)
qed

lemma one_listener_iff:
  "one_listener w \<longleftrightarrow>
     (\<exists>rt. listeners w = [rt] \<and> persistent w = (case rt of None \<Rightarrow> [] | Some t \<Rightarrow> [t]))"
  by (auto simp: one_listener_def split: list.splits)

lemma listeners_state_listener: "listeners (snd (state_listener s rt w)) = listeners w"
  by (cases s; cases rt)
     (simp_all add: state_listener_def show_toast_def dismiss_def emit_def Let_def)

lemma one_listener_WS_emit_state: "one_listener w \<Longrightarrow> one_listener (WS_emit_state s w)"
proof -
  assume "one_listener w"
  then obtain rt where l: "listeners w = [rt]"
    and p: "persistent w = (case rt of None \<Rightarrow> [] | Some t \<Rightarrow> [t])"
    unfolding one_listener_iff by blast
  from p have "persistent (snd (state_listener s rt w)) =
     (case fst (state_listener s rt w) of None \<Rightarrow> [] | Some t \<Rightarrow> [t])"
    by (rule persistent_state_listener)
  with l show ?thesis
    by (simp add: one_listener_iff WS_emit_state_def split_beta Let_def)
qed

lemma listeners_getMe_then: "listeners (getMe_then i result w) = listeners w"
proof (cases result)
  case (Ok usr)
  then show ?thesis by (simp add: getMe_then_Ok set_fetching_def setState_def emit_def)
next
  case (Err err)
  show ?thesis
  proof (cases "err = JNull")
    case True
    with Err show ?thesis by (simp add: getMe_then_null emit_def)
  next
    case False
    then obtain code msg where "property err ''status_code'' = Inr code"
      and "property err ''message'' = Inr msg"
      using property_defined by blast
    with Err show ?thesis
      by (simp add: getMe_then_Err set_fetching_def setState_def show_toast_def emit_def Let_def)
  qed
qed

lemma persistent_getMe_then: "persistent (getMe_then i result w) = persistent w"
proof (cases result)
  case (Ok usr)
  then show ?thesis by (simp add: getMe_then_Ok set_fetching_def setState_def emit_def)
next
  case (Err err)
  show ?thesis
  proof (cases "err = JNull")
    case True
    with Err show ?thesis by (simp add: getMe_then_null emit_def)
  next
    case False
    then obtain code msg where "property err ''status_code'' = Inr code"
      and "property err ''message'' = Inr msg"
      using property_defined by blast
    with Err show ?thesis
      by (simp add: getMe_then_Err set_fetching_def setState_def show_toast_def emit_def Let_def
            default_options_def)
  qed
qed

lemma one_listener_step: "one_listener w \<Longrightarrow> \<not> is_Mount e \<Longrightarrow> one_listener (step e w)"
proof (cases e)
  case (Mount i)
  assume "\<not> is_Mount e"
  with Mount show ?thesis by simp
next
  case (Unmount i)
  assume "one_listener w"
  with Unmount show ?thesis
    by (simp add: one_listener_iff componentWillUnmount_def emit_def)
next
  case (Call_fetchUser i)
  assume "one_listener w"
  with Call_fetchUser show ?thesis
    by (simp add: one_listener_iff fetchUser_def request_getMe_def setState_def
          set_fetching_def emit_def)
next
  case (Resolve_getMe i result)
  assume "one_listener w"
  with Resolve_getMe show ?thesis
    by (simp add: one_listener_iff listeners_getMe_then persistent_getMe_then)
next
  case (Call_inspectError err)
  assume "one_listener w"
  with Call_inspectError show ?thesis
    by (cases "USER_PROVIDER w")
       (simp_all add: one_listener_iff inspectError_def setState_on_def setState_def emit_def)
next
  case (WS_state s)
  assume "one_listener w"
  with WS_state show ?thesis by (simp add: one_listener_WS_emit_state)
qed

lemma one_listener_run:
  "one_listener w \<Longrightarrow> \<forall>e \<in> set tr. \<not> is_Mount e \<Longrightarrow> one_listener (run tr w)"
  by (induction tr arbitrary: w) (simp_all add: one_listener_step del: step.simps)

lemma one_listener_mounted: "one_listener (componentDidMount this (init org))"
  by (simp add: one_listener_iff page_defs)

text \<open>A state other than connected, delivered twice in a row.\<close>

lemma dispatch_other_all_Some:
  "s \<noteq> connected \<Longrightarrow> \<forall>rt \<in> set (fst (dispatch s rts w)). rt \<noteq> None"
proof (induction rts arbitrary: w)
  case Nil
  then show ?case by simp
next
  case (Cons rt rts)
  from Cons.prems have "fst (state_listener s rt w) \<noteq> None"
    by (cases rt) (simp_all add: state_listener_other_None state_listener_other_Some)
  with Cons show ?case by (simp add: split_beta Let_def)
qed

lemma dispatch_other_idle:
  "s \<noteq> connected \<Longrightarrow> \<forall>rt \<in> set rts. rt \<noteq> None \<Longrightarrow> dispatch s rts w = (rts, w)"
proof (induction rts arbitrary: w)
  case Nil
  then show ?case by simp
next
  case (Cons rt rts)
  from Cons.prems obtain t where "rt = Some t" by auto
  with Cons show ?case by (simp add: state_listener_other_Some)
qed

lemma WS_emit_state_other_twice:
  assumes "s \<noteq> connected" and "s' \<noteq> connected"
  shows "WS_emit_state s' (WS_emit_state s w) = WS_emit_state s w"
proof -
  obtain rts w' where d: "dispatch s (listeners w) w = (rts, w')" by (cases "dispatch s (listeners w) w")
  with assms(1) dispatch_other_all_Some [of s "listeners w" w]
  have "\<forall>rt \<in> set rts. rt \<noteq> None" by simp
  with assms(2) have "dispatch s' rts (w'\<lparr>listeners := rts\<rparr>) = (rts, w'\<lparr>listeners := rts\<rparr>)"
    by (rule dispatch_other_idle)
  with d show ?thesis by (simp add: WS_emit_state_def)
qed

text \<open>
  C8. After the mount of one provider on a fresh page, whatever events follow (websocket
  states, fetches and their results, interceptor calls, the unmount), short of another mount,
  at most one persistent toast is shown. On connected the listener dismisses its running
  toast and shows the success toast, which closes by itself after a second. On any other
  state it shows a new persistent toast when it has none running and does nothing when it has
  one; so a second state other than connected, with no connected in between, changes
  nothing at all.
\<close>

theorem at_most_one_persistent_notification:
  "((\<forall>e \<in> set tr. \<not> is_Mount e) \<longrightarrow>
      length (persistent (run tr (componentDidMount this (init org)))) \<le> 1)
   \<and> state_listener connected (Some t) w =
       (None,
        snd (show_toast success (str ''Websocket has connected'')
               (default_options\<lparr>autoClose := autoClose_ms 1000\<rparr>) (dismiss t w)))
   \<and> t \<notin> set (persistent (snd (state_listener connected (Some t) w)))
   \<and> (s \<noteq> connected \<longrightarrow>
        state_listener s None w =
          (Some (next_toast w),
           snd (show_toast error (str ''Connecting websocket...'')
                  \<lparr>closeButton = False, closeOnClick = False, autoClose = autoClose_false,
                   isLoading = True\<rparr> w))
      \<and> state_listener s (Some t) w = (Some t, w))
   \<and> (s \<noteq> connected \<and> s' \<noteq> connected \<longrightarrow>
        WS_emit_state s' (WS_emit_state s w) = WS_emit_state s w)"
proof -
  have a: "length (persistent (run tr (componentDidMount this (init org)))) \<le> 1"
    if "\<forall>e \<in> set tr. \<not> is_Mount e"
  proof -
    from one_listener_mounted that have "one_listener (run tr (componentDidMount this (init org)))"
      by (rule one_listener_run)
    then show ?thesis by (auto simp: one_listener_iff split: option.splits)
  qed
  have b: "t \<notin> set (persistent (snd (state_listener connected (Some t) w)))"
    by (simp add: state_listener_connected show_toast_def dismiss_def emit_def Let_def)
  from a b show ?thesis
    by (simp add: state_listener_connected state_listener_other_None state_listener_other_Some
          WS_emit_state_other_twice errorToast_def)
qed

theorem at_most_one_persistent_notification_witness:
  "length (persistent (run [WS_state connected, WS_state disconnected, WS_state disconnected]
       (componentDidMount 0 (init ''http://localhost'')))) \<le> 1
   \<and> persistent (run [WS_state connected, WS_state disconnected, WS_state disconnected]
       (componentDidMount 0 (init ''http://localhost''))) = [2]
   \<and> persistent (run [WS_state connected] (componentDidMount 0 (init ''http://localhost''))) = []
   \<and> WS_emit_state disconnected
        (WS_emit_state disconnected
           (run [WS_state connected] (componentDidMount 0 (init ''http://localhost''))))
     = WS_emit_state disconnected
         (run [WS_state connected] (componentDidMount 0 (init ''http://localhost'')))"
proof -
  let ?tr = "[WS_state connected, WS_state disconnected, WS_state disconnected]"
  let ?w = "run [WS_state connected] (componentDidMount 0 (init ''http://localhost''))"
  have h: "\<forall>e \<in> set ?tr. \<not> is_Mount e" by simp
  have k: "disconnected \<noteq> connected \<and> disconnected \<noteq> connected" by simp
  from at_most_one_persistent_notification
    [where tr = ?tr and this = 0 and org = "''http://localhost''" and s = disconnected
       and s' = disconnected and w = ?w and t = 0] h k
  have a: "length (persistent (run ?tr (componentDidMount 0 (init ''http://localhost'')))) \<le> 1"
    and b: "WS_emit_state disconnected (WS_emit_state disconnected ?w)
       = WS_emit_state disconnected ?w"
    by blast+
  have c: "persistent ?w = []" "listeners ?w = [None]" "next_toast ?w = 2"
    by (simp_all add: page_defs WS_emit_state_def state_listener_def)
  then have d: "persistent (WS_emit_state disconnected ?w) = [2]"
    by (simp add: WS_emit_state_def state_listener_def show_toast_def emit_def errorToast_def)
  from b d have "persistent (run ?tr (componentDidMount 0 (init ''http://localhost''))) = [2]"
    by simp
  with a b c show ?thesis by simp
qed

end
